theory Spec2Isabelle
  imports Complex_Main "HOL-Library.AList"
begin

section \<open>The group adapter\<close>

text \<open>
  \<^verbatim>\<open>GroupComplex\<close> consumes a Sage group object.  The record lists what the source calls on
  it: iteration (\<^verbatim>\<open>list(group)\<close>), \<^verbatim>\<open>a*b\<close>, \<^verbatim>\<open>a**(-1)\<close>, \<^verbatim>\<open>a.order()\<close>,
  \<^verbatim>\<open>group.center()\<close>, \<^verbatim>\<open>group.conjugacy_classes_representatives()\<close> and
  \<^verbatim>\<open>group.is_abelian()\<close>.
\<close>

record 'a group =
  elements :: "'a list"
  gmul :: "'a \<Rightarrow> 'a \<Rightarrow> 'a"
  ginv :: "'a \<Rightarrow> 'a"
  gorder :: "'a \<Rightarrow> nat"
  center :: "'a list"
  conjugacy_classes_representatives :: "'a list"
  is_abelian :: bool

datatype error = AssertionError | KeyError | IndexError

text \<open>A Python dict in insertion order: \<^const>\<open>AList.update\<close> overwrites in place or appends.\<close>

type_synonym ('k, 'v) dict = "('k \<times> 'v) list"

type_synonym 'a sheet = "'a list"

type_synonym 'a catalog = "(('a \<times> nat) \<times> 'a sheet) list"

type_synonym matrix = "int list list"

section \<open>Reps and ConClasses\<close>

text \<open>
  \<^verbatim>\<open>self.oppCen = list(set(group).difference(set(group.center())))\<close>: the order of the
  list is the iteration order of a Python set, which the language leaves open.  The functions below
  take \<open>oppCen\<close> as the list the interpreter produced; \<open>oppCen_ok\<close> says which lists it can be.
\<close>

definition oppCen_ok :: "'a group \<Rightarrow> 'a list \<Rightarrow> bool" where
  "oppCen_ok G oppCen \<longleftrightarrow>
     distinct oppCen \<and> set oppCen = set (elements G) - set (center G)"

definition Reps :: "'a group \<Rightarrow> 'a list \<Rightarrow> 'a list" where
  "Reps G oppCen = filter (\<lambda>elem. elem \<in> set oppCen) (conjugacy_classes_representatives G)"

text \<open>\<^verbatim>\<open>elem**(-1)*candidate*elem\<close>, associated to the left as Python does.\<close>

definition conj_by :: "'a group \<Rightarrow> 'a \<Rightarrow> 'a \<Rightarrow> 'a" where
  "conj_by G elem candidate = gmul G (gmul G (ginv G elem) candidate) elem"

text \<open>
  The inner loop of \<^verbatim>\<open>ConClasses\<close>: the first \<open>elem\<close> of \<open>oppCen\<close> that conjugates the
  candidate to a representative appends the candidate to that class and breaks; a loop that
  runs out leaves the dictionary as it was.  \<^verbatim>\<open>dic[key]\<close> on a missing key raises KeyError.
\<close>

fun ConClasses_inner ::
  "'a group \<Rightarrow> 'a list \<Rightarrow> 'a \<Rightarrow> 'a list \<Rightarrow> ('a, 'a list) dict \<Rightarrow> error + ('a, 'a list) dict" where
  "ConClasses_inner G representatives candidate [] dic = Inr dic"
| "ConClasses_inner G representatives candidate (elem # rest) dic =
     (if conj_by G elem candidate \<in> set representatives
      then (case map_of dic (conj_by G elem candidate) of
              None \<Rightarrow> Inl KeyError
            | Some cls \<Rightarrow> Inr (AList.update (conj_by G elem candidate) (cls @ [candidate]) dic))
      else ConClasses_inner G representatives candidate rest dic)"

fun ConClasses_outer ::
  "'a group \<Rightarrow> 'a list \<Rightarrow> 'a list \<Rightarrow> 'a list \<Rightarrow> ('a, 'a list) dict \<Rightarrow> error + ('a, 'a list) dict" where
  "ConClasses_outer G oppCen representatives [] dic = Inr dic"
| "ConClasses_outer G oppCen representatives (candidate # rest) dic =
     (case ConClasses_inner G representatives candidate oppCen dic of
        Inl e \<Rightarrow> Inl e
      | Inr dic' \<Rightarrow> ConClasses_outer G oppCen representatives rest dic')"

text \<open>
  \<open>candidates\<close> is \<^verbatim>\<open>set(self.oppCen)-set(self.representatives)\<close> in the order the
  interpreter iterates it; \<open>candidates_ok\<close> says which lists it can be.
\<close>

definition candidates_ok :: "'a list \<Rightarrow> 'a list \<Rightarrow> 'a list \<Rightarrow> bool" where
  "candidates_ok oppCen representatives candidates \<longleftrightarrow>
     distinct candidates \<and> set candidates = set oppCen - set representatives"

definition ConClasses ::
  "'a group \<Rightarrow> 'a list \<Rightarrow> 'a list \<Rightarrow> 'a list \<Rightarrow> error + ('a, 'a list) dict" where
  "ConClasses G oppCen representatives candidates =
     ConClasses_outer G oppCen representatives candidates
       (fold (\<lambda>elem dic. AList.update elem [elem] dic) representatives [])"

section \<open>SheetAdjacency\<close>

text \<open>
  \<^verbatim>\<open>sheet.index(elem)\<close> is the first position of \<open>elem\<close>.  The source only asks for elements
  drawn from \<^verbatim>\<open>sheet[:-1]\<close>, so the element is found and the position after it exists
  (lemma \<open>index_of_butlast\<close>).
\<close>

definition index_of :: "'a list \<Rightarrow> 'a \<Rightarrow> nat" where
  "index_of xs x = length (takeWhile (\<lambda>y. y \<noteq> x) xs)"

definition next_elem :: "'a sheet \<Rightarrow> 'a \<Rightarrow> 'a" where
  "next_elem sheet elem = sheet ! (index_of sheet elem + 1)"

definition SheetAdjacency :: "'a sheet \<Rightarrow> 'a sheet \<Rightarrow> bool" where
  "SheetAdjacency sheet0 sheet1 =
     list_ex (\<lambda>elem0.
       list_ex (\<lambda>elem1.
           [elem0, next_elem sheet0 elem0] = [next_elem sheet1 elem1, elem1]
         \<or> [elem0, next_elem sheet0 elem0] = [elem1, next_elem sheet1 elem1])
         (butlast sheet1))
       (butlast sheet0)"

section \<open>Sheetbuilder and SheetIterator\<close>

text \<open>
  The \<^verbatim>\<open>while sheet_candidate[0] != sheet_candidate[-1]\<close> loop.  Nothing in the source bounds
  it, so it is a partial function: \<open>None\<close> is a loop that never ends.
\<close>

partial_function (option) close_sheet :: "'a group \<Rightarrow> 'a \<Rightarrow> 'a sheet \<Rightarrow> 'a sheet option" where
  "close_sheet G elem0 sheet_candidate =
     (if hd sheet_candidate \<noteq> last sheet_candidate
      then close_sheet G elem0
             (sheet_candidate @ [gmul G (ginv G (last sheet_candidate)) elem0])
      else Some sheet_candidate)"

text \<open>
  The loop over \<open>elem1\<close> for one anchor \<open>elem0\<close>.  \<^verbatim>\<open>dic[elem0]\<close> has the keys
  \<open>0, 1, ..., counter - 1\<close> in this order, so it is the list of the accepted sheets and
  \<open>counter\<close> is its length.  A candidate whose element set equals that of an accepted sheet is
  replaced by the string \<^verbatim>\<open>'already obtained'\<close> and not stored.
\<close>

fun Sheetbuilder_inner ::
  "'a group \<Rightarrow> 'a \<Rightarrow> 'a list \<Rightarrow> 'a sheet list \<Rightarrow> 'a sheet list option" where
  "Sheetbuilder_inner G elem0 [] accepted = Some accepted"
| "Sheetbuilder_inner G elem0 (elem1 # rest) accepted =
     (if gmul G elem0 elem1 \<noteq> gmul G elem1 elem0
      then (case close_sheet G elem0 [elem1, gmul G (ginv G elem1) elem0] of
              None \<Rightarrow> None
            | Some sheet_candidate \<Rightarrow>
                if list_ex (\<lambda>old. set sheet_candidate = set old) accepted
                then Sheetbuilder_inner G elem0 rest accepted
                else Sheetbuilder_inner G elem0 rest (accepted @ [sheet_candidate]))
      else Sheetbuilder_inner G elem0 rest accepted)"

fun Sheetbuilder_outer ::
  "'a group \<Rightarrow> 'a list \<Rightarrow> 'a list \<Rightarrow> ('a, 'a sheet list) dict \<Rightarrow> ('a, 'a sheet list) dict option" where
  "Sheetbuilder_outer G oppCen [] dic = Some dic"
| "Sheetbuilder_outer G oppCen (elem0 # rest) dic =
     (case Sheetbuilder_inner G elem0 oppCen [] of
        None \<Rightarrow> None
      | Some accepted \<Rightarrow> Sheetbuilder_outer G oppCen rest (AList.update elem0 accepted dic))"

definition Sheetbuilder ::
  "'a group \<Rightarrow> 'a list \<Rightarrow> ('a, 'a list) dict \<Rightarrow> 'a \<Rightarrow> (error + ('a, 'a sheet list) dict) option" where
  "Sheetbuilder G oppCen conjugacyClasses conclassrep =
     (case map_of conjugacyClasses conclassrep of
        None \<Rightarrow> Some (Inl KeyError)
      | Some cls \<Rightarrow> map_option Inr (Sheetbuilder_outer G oppCen cls []))"

text \<open>
  \<^verbatim>\<open>SheetIterator\<close> calls \<^verbatim>\<open>Sheetbuilder(rep)\<close> again for every key and every sheet; the
  calls return the same dictionary, which the model computes once per representative.
\<close>

definition sheets_of_dict :: "('a, 'a sheet list) dict \<Rightarrow> 'a catalog" where
  "sheets_of_dict dic =
     concat (map (\<lambda>(elem, accepted).
                    map (\<lambda>(sheetkey, sheet). ((elem, sheetkey), sheet)) (enumerate 0 accepted))
                 dic)"

fun SheetIterator ::
  "'a group \<Rightarrow> 'a list \<Rightarrow> ('a, 'a list) dict \<Rightarrow> 'a list \<Rightarrow> (error + 'a catalog) option" where
  "SheetIterator G oppCen conjugacyClasses [] = Some (Inr [])"
| "SheetIterator G oppCen conjugacyClasses (rep # rest) =
     (case Sheetbuilder G oppCen conjugacyClasses rep of
        None \<Rightarrow> None
      | Some (Inl e) \<Rightarrow> Some (Inl e)
      | Some (Inr dic) \<Rightarrow>
          (case SheetIterator G oppCen conjugacyClasses rest of
             None \<Rightarrow> None
           | Some (Inl e) \<Rightarrow> Some (Inl e)
           | Some (Inr later) \<Rightarrow> Some (Inr (sheets_of_dict dic @ later))))"

section \<open>ComponentBuilder: the adjacency matrix\<close>

definition zero_matrix :: "nat \<Rightarrow> nat \<Rightarrow> matrix" where
  "zero_matrix m n = replicate m (replicate n 0)"

definition mat_set :: "matrix \<Rightarrow> nat \<Rightarrow> nat \<Rightarrow> int \<Rightarrow> matrix" where
  "mat_set mat i j v = mat[i := (mat ! i)[j := v]]"

text \<open>One pass of \<^verbatim>\<open>for j in range(i,size)\<close>, on the matrix and \<open>adjacentSheetsFound\<close>.\<close>

fun scan_row :: "'a catalog \<Rightarrow> nat \<Rightarrow> nat list \<Rightarrow> matrix \<times> int \<Rightarrow> matrix \<times> int" where
  "scan_row sheets i [] st = st"
| "scan_row sheets i (j # js) st =
     (if SheetAdjacency (snd (sheets ! i)) (snd (sheets ! j))
      then scan_row sheets i js (mat_set (mat_set (fst st) i j 1) j i 1, snd st + 1)
      else scan_row sheets i js st)"

text \<open>\<^verbatim>\<open>while adjacentSheetsFound < len(self.sheets[i][1])+1\<close>, unbounded in the source.\<close>

partial_function (option) find_adjacent ::
  "'a catalog \<Rightarrow> nat \<Rightarrow> matrix \<times> int \<Rightarrow> matrix option" where
  "find_adjacent sheets i st =
     (if snd st < int (length (snd (sheets ! i))) + 1
      then find_adjacent sheets i (scan_row sheets i [i..<length sheets] st)
      else Some (fst st))"

fun build_rows :: "'a catalog \<Rightarrow> nat list \<Rightarrow> matrix \<Rightarrow> matrix option" where
  "build_rows sheets [] mat = Some mat"
| "build_rows sheets (i # rest) mat =
     (case find_adjacent sheets i (mat, sum_list (mat ! i)) of
        None \<Rightarrow> None
      | Some mat' \<Rightarrow> build_rows sheets rest mat')"

definition AdjacencyMatrix :: "'a catalog \<Rightarrow> matrix option" where
  "AdjacencyMatrix sheets =
     build_rows sheets [0..<length sheets] (zero_matrix (length sheets) (length sheets))"

section \<open>ComponentBuilder: the statistics of one component\<close>

record 'a component_info =
  raw_data :: "nat list"
  faces :: int
  parsed_data :: "'a catalog"
  polygon :: int
  vertices :: int
  edges :: int
  Euler_characteristic :: int
  genus :: rat

text \<open>A \<^verbatim>\<open>for\<close> loop whose body may raise: the state is threaded until the first error.\<close>

fun for_each :: "'i list \<Rightarrow> ('i \<Rightarrow> 's \<Rightarrow> error + 's) \<Rightarrow> 's \<Rightarrow> error + 's" where
  "for_each [] body st = Inr st"
| "for_each (x # xs) body st =
     (case body x st of Inl e \<Rightarrow> Inl e | Inr st' \<Rightarrow> for_each xs body st')"

text \<open>\<^verbatim>\<open>range(n)\<close> and \<^verbatim>\<open>range(a,b)\<close> on Python integers: empty when the bound is not above.\<close>

definition range2 :: "int \<Rightarrow> int \<Rightarrow> nat list" where
  "range2 a b = [nat a..<nat b]"

text \<open>\<^verbatim>\<open>[self.sheets[i] for i in rawData[component]]\<close>; an index past the end raises.\<close>

fun parse_data :: "'a catalog \<Rightarrow> nat list \<Rightarrow> error + 'a catalog" where
  "parse_data sheets [] = Inr []"
| "parse_data sheets (i # rest) =
     (if i < length sheets
      then (case parse_data sheets rest of Inl e \<Rightarrow> Inl e | Inr ps \<Rightarrow> Inr (sheets ! i # ps))
      else Inl IndexError)"

text \<open>
  \<^verbatim>\<open>vert**i\<close> for \<open>i \<ge> 1\<close>, by repeated multiplication.  The source never raises to the
  power 0 (\<open>i\<close> starts at 1); the equation for 0 is the identity \<open>x * x**(-1)\<close>.
\<close>

fun gpow :: "'a group \<Rightarrow> 'a \<Rightarrow> nat \<Rightarrow> 'a" where
  "gpow G x 0 = gmul G x (ginv G x)"
| "gpow G x (Suc 0) = x"
| "gpow G x (Suc (Suc n)) = gmul G (gpow G x (Suc n)) x"

text \<open>
  \<^verbatim>\<open>set([vert**(-i)*elem*vert**i for i in range(1,vert.order())])\<close>, as the list of its
  elements.
\<close>

definition conjugates :: "'a group \<Rightarrow> 'a \<Rightarrow> 'a \<Rightarrow> 'a list" where
  "conjugates G vert elem =
     map (\<lambda>i. gmul G (gmul G (ginv G (gpow G vert i)) elem) (gpow G vert i))
         [1..<gorder G vert]"

text \<open>
  The \<^verbatim>\<open>while containingSheetElements != set()\<close> loop.  The set is a list without
  repetitions and \<^verbatim>\<open>pop()\<close> takes its head (Python leaves open which element is popped).
\<close>

fun count_pops :: "'a group \<Rightarrow> 'a \<Rightarrow> 'a list \<Rightarrow> int" where
  "count_pops G vert [] = 0"
| "count_pops G vert (elem # rest) =
     count_pops G vert (filter (\<lambda>x. x \<notin> set (conjugates G vert elem)) rest) + 1"

definition count_vertices :: "'a group \<Rightarrow> 'a catalog \<Rightarrow> int" where
  "count_vertices G parsed =
     sum_list (map (\<lambda>vert.
         count_pops G vert
           (remdups (map (\<lambda>sheet. fst (fst sheet))
                         (filter (\<lambda>sheet. vert \<in> set (snd sheet)) parsed))))
       (remdups (concat (map snd parsed))))"

text \<open>
  The test of the edge count at one pair of positions.  The four reads
  \<^verbatim>\<open>sheet0[s]\<close>, \<^verbatim>\<open>sheet0[s+1]\<close>, \<^verbatim>\<open>sheet1[t]\<close>, \<^verbatim>\<open>sheet1[t+1]\<close> come first, and a read
  past the end raises IndexError.
\<close>

definition edge_match :: "'a sheet \<Rightarrow> 'a sheet \<Rightarrow> nat \<Rightarrow> nat \<Rightarrow> error + bool" where
  "edge_match sheet0 sheet1 s t =
     (if s + 1 < length sheet0 \<and> t + 1 < length sheet1
      then Inr ([sheet0 ! s, sheet0 ! (s + 1)] = [sheet1 ! t, sheet1 ! (t + 1)]
              \<or> [sheet0 ! s, sheet0 ! (s + 1)] = [sheet1 ! (t + 1), sheet1 ! t])
      else Inl IndexError)"

definition count_edges :: "'a catalog \<Rightarrow> int \<Rightarrow> int \<Rightarrow> error + int" where
  "count_edges parsed sz poly =
     for_each (range2 0 (sz - 1)) (\<lambda>i.
       for_each (range2 (int i + 1) sz) (\<lambda>j.
         for_each (range2 0 poly) (\<lambda>s.
           for_each (range2 0 poly) (\<lambda>t edgeCount.
             case edge_match (snd (parsed ! i)) (snd (parsed ! j)) s t of
               Inl e \<Rightarrow> Inl e
             | Inr True \<Rightarrow> Inr (edgeCount + 1)
             | Inr False \<Rightarrow> Inr edgeCount)))) 0"

text \<open>
  The body of \<^verbatim>\<open>for component in range(len(rawData))\<close> for one entry of \<open>rawData\<close>.
  \<^verbatim>\<open>dic[component]["parsed data"][0]\<close> raises on an empty component.  The genus is
  \<^verbatim>\<open>(chi-2)/(-2)\<close> with true division, a rational number.
\<close>

definition component_info :: "'a group \<Rightarrow> 'a catalog \<Rightarrow> nat list \<Rightarrow> error + 'a component_info" where
  "component_info G sheets raw =
     (case parse_data sheets raw of
        Inl e \<Rightarrow> Inl e
      | Inr parsed \<Rightarrow>
          (case parsed of
             [] \<Rightarrow> Inl IndexError
           | first # _ \<Rightarrow>
               (let f = int (length raw);
                    p = int (length (snd first)) - 1;
                    v = count_vertices G parsed
                in case count_edges parsed f p of
                     Inl e \<Rightarrow> Inl e
                   | Inr e \<Rightarrow>
                       Inr \<lparr> raw_data = raw, faces = f, parsed_data = parsed, polygon = p,
                             vertices = v, edges = e, Euler_characteristic = v - e + f,
                             genus = (of_int (v - e + f) - 2) / (- 2) \<rparr>)))"

text \<open>
  \<^verbatim>\<open>ComponentBuilder\<close>.  \<^verbatim>\<open>Graph(mat).connected_components()\<close> is Sage's; the model takes
  it as the parameter \<open>connected_components\<close>.  The result pairs each component number with
  its record.
\<close>

fun component_infos ::
  "'a group \<Rightarrow> 'a catalog \<Rightarrow> nat list list \<Rightarrow> error + 'a component_info list" where
  "component_infos G sheets [] = Inr []"
| "component_infos G sheets (raw # rest) =
     (case component_info G sheets raw of
        Inl e \<Rightarrow> Inl e
      | Inr info \<Rightarrow>
          (case component_infos G sheets rest of
             Inl e \<Rightarrow> Inl e
           | Inr infos \<Rightarrow> Inr (info # infos)))"

definition ComponentBuilder ::
  "(matrix \<Rightarrow> nat list list) \<Rightarrow> 'a group \<Rightarrow> 'a catalog
     \<Rightarrow> (error + (nat, 'a component_info) dict) option" where
  "ComponentBuilder connected_components G sheets =
     (case AdjacencyMatrix sheets of
        None \<Rightarrow> None
      | Some mat \<Rightarrow>
          Some (case component_infos G sheets (connected_components mat) of
                  Inl e \<Rightarrow> Inl e
                | Inr infos \<Rightarrow> Inr (enumerate 0 infos)))"

section \<open>What the adapter promises\<close>

text \<open>
  The source relies on the object being a finite group: \<open>group_ok\<close> writes the group axioms
  over the element list, \<open>center_ok\<close> that \<^verbatim>\<open>center()\<close> is the centre, and \<open>reps_ok\<close> that
  \<^verbatim>\<open>conjugacy_classes_representatives()\<close> has exactly one element of every conjugacy
  class.
\<close>

definition is_one :: "'a group \<Rightarrow> 'a \<Rightarrow> bool" where
  "is_one G e \<longleftrightarrow>
     e \<in> set (elements G) \<and>
     list_all (\<lambda>x. gmul G e x = x \<and> gmul G x e = x
                 \<and> gmul G (ginv G x) x = e \<and> gmul G x (ginv G x) = e) (elements G)"

definition group_ok :: "'a group \<Rightarrow> bool" where
  "group_ok G \<longleftrightarrow>
     distinct (elements G) \<and>
     list_all (\<lambda>x. ginv G x \<in> set (elements G)) (elements G) \<and>
     list_all (\<lambda>x. list_all (\<lambda>y. gmul G x y \<in> set (elements G)) (elements G)) (elements G) \<and>
     list_all (\<lambda>x. list_all (\<lambda>y. list_all (\<lambda>z.
         gmul G (gmul G x y) z = gmul G x (gmul G y z))
       (elements G)) (elements G)) (elements G) \<and>
     list_ex (is_one G) (elements G)"

definition center_ok :: "'a group \<Rightarrow> bool" where
  "center_ok G \<longleftrightarrow>
     list_all (\<lambda>z. z \<in> set (elements G)) (center G) \<and>
     list_all (\<lambda>z. z \<in> set (center G) \<longleftrightarrow>
                   list_all (\<lambda>g. gmul G z g = gmul G g z) (elements G)) (elements G)"

definition conjugate :: "'a group \<Rightarrow> 'a \<Rightarrow> 'a \<Rightarrow> bool" where
  "conjugate G x y \<longleftrightarrow> list_ex (\<lambda>g. conj_by G g x = y) (elements G)"

definition reps_ok :: "'a group \<Rightarrow> bool" where
  "reps_ok G \<longleftrightarrow>
     distinct (conjugacy_classes_representatives G) \<and>
     list_all (\<lambda>r. r \<in> set (elements G)) (conjugacy_classes_representatives G) \<and>
     list_all (\<lambda>x. length (filter (conjugate G x) (conjugacy_classes_representatives G)) = 1)
       (elements G)"

definition adapter_ok :: "'a group \<Rightarrow> bool" where
  "adapter_ok G \<longleftrightarrow> group_ok G \<and> center_ok G \<and> reps_ok G"

section \<open>A concrete adapter: the dihedral group of order 6\<close>

text \<open>
  The element \<open>(k, b)\<close> is the rotation by \<open>k\<close> thirds of a turn, followed by the reflection
  when \<open>b\<close> holds.
\<close>

definition d3_mul :: "nat \<times> bool \<Rightarrow> nat \<times> bool \<Rightarrow> nat \<times> bool" where
  "d3_mul x y = ((fst x + (if snd x then 3 - fst y else fst y)) mod 3, snd x \<noteq> snd y)"

definition d3_inv :: "nat \<times> bool \<Rightarrow> nat \<times> bool" where
  "d3_inv x = (if snd x then x else ((3 - fst x) mod 3, False))"

definition D3 :: "(nat \<times> bool) group" where
  "D3 = \<lparr> elements = [(0, False), (1, False), (2, False), (0, True), (1, True), (2, True)],
          gmul = d3_mul, ginv = d3_inv,
          gorder = (\<lambda>x. if snd x then 2 else if fst x = 0 then 1 else 3),
          center = [(0, False)],
          conjugacy_classes_representatives = [(0, False), (0, True), (1, False)],
          is_abelian = False \<rparr>"

definition D3_oppCen :: "(nat \<times> bool) list" where
  "D3_oppCen = [(1, False), (2, False), (0, True), (1, True), (2, True)]"

text \<open>The catalog \<^verbatim>\<open>self.sheets\<close> of this adapter and its adjacency matrix.\<close>

definition D3_classes :: "(nat \<times> bool, (nat \<times> bool) list) dict" where
  "D3_classes = [((0, True), [(0, True), (1, True), (2, True)]),
                 ((1, False), [(1, False), (2, False)])]"

definition D3_sheets :: "(nat \<times> bool) catalog" where
  "D3_sheets =
     [(((0, True), 0), [(1, False), (2, True), (2, False), (1, True), (1, False)]),
      (((1, True), 0), [(1, False), (0, True), (2, False), (2, True), (1, False)]),
      (((2, True), 0), [(1, False), (1, True), (2, False), (0, True), (1, False)]),
      (((1, False), 0), [(0, True), (2, True), (1, True), (0, True)]),
      (((2, False), 0), [(0, True), (1, True), (2, True), (0, True)])]"

definition D3_mat :: matrix where
  "D3_mat = [[1, 1, 1, 0, 0], [1, 1, 1, 0, 0], [1, 1, 1, 0, 0], [0, 0, 0, 1, 1], [0, 0, 0, 1, 1]]"

section \<open>Notions used in the proofs\<close>

definition square :: "nat \<Rightarrow> matrix \<Rightarrow> bool" where
  "square n mat \<longleftrightarrow> length mat = n \<and> (\<forall>i<n. length (mat ! i) = n)"

text \<open>
  The invariant of the matrix loops: the matrix is square and symmetric, its entries are 0 or
  1, and an entry 1 stands between two sheets that \<^verbatim>\<open>SheetAdjacency\<close> accepts.
\<close>

definition recorded :: "'a catalog \<Rightarrow> matrix \<Rightarrow> bool" where
  "recorded sheets mat \<longleftrightarrow>
     square (length sheets) mat \<and>
     (\<forall>a<length sheets. \<forall>b<length sheets.
        mat ! a ! b = mat ! b ! a \<and> (mat ! a ! b = 0 \<or> mat ! a ! b = 1) \<and>
        (mat ! a ! b = 1 \<longrightarrow> SheetAdjacency (snd (sheets ! a)) (snd (sheets ! b))))"

definition D3_dict0 :: "(nat \<times> bool, (nat \<times> bool) sheet list) dict" where
  "D3_dict0 =
     [((0, True), [[(1, False), (2, True), (2, False), (1, True), (1, False)]]),
      ((1, True), [[(1, False), (0, True), (2, False), (2, True), (1, False)]]),
      ((2, True), [[(1, False), (1, True), (2, False), (0, True), (1, False)]])]"

definition D3_norot :: "(nat \<times> bool) group" where
  "D3_norot = D3\<lparr>conjugacy_classes_representatives := [(0, False), (0, True)]\<rparr>"

definition matched :: "'a group \<Rightarrow> 'a list \<Rightarrow> 'a list \<Rightarrow> 'a \<Rightarrow> bool" where
  "matched G oppCen representatives candidate \<longleftrightarrow>
     list_ex (\<lambda>elem. conj_by G elem candidate \<in> set representatives) oppCen"

definition classes_inv ::
  "'a group \<Rightarrow> 'a list \<Rightarrow> 'a list \<Rightarrow> 'a set \<Rightarrow> ('a, 'a list) dict \<Rightarrow> bool" where
  "classes_inv G oppCen representatives seen dic \<longleftrightarrow>
     distinct (map fst dic) \<and> dom (map_of dic) = set representatives \<and>
     (\<forall>r cls. map_of dic r = Some cls \<longrightarrow>
        (\<exists>rest. cls = r # rest \<and> distinct rest \<and> set rest \<subseteq> seen \<and>
           (\<forall>x\<in>set rest. \<exists>elem\<in>set oppCen. conj_by G elem x = r))) \<and>
     (\<forall>c\<in>seen. matched G oppCen representatives c \<longrightarrow>
        (\<exists>r cls. map_of dic r = Some cls \<and> c \<in> set cls))"

section \<open>Evaluation of the loops\<close>

declare close_sheet.simps [code]

declare find_adjacent.simps [code]

lemma D3_adapter_ok: "adapter_ok D3"
  by code_simp

lemma D3_oppCen_ok: "oppCen_ok D3 D3_oppCen"
  by code_simp

lemma D3_Reps: "Reps D3 D3_oppCen = [(0, True), (1, False)]"
  by code_simp

lemma D3_ConClasses:
  "ConClasses D3 D3_oppCen [(0, True), (1, False)] [(2, False), (1, True), (2, True)]
     = Inr D3_classes"
  by code_simp

lemma D3_SheetIterator:
  "SheetIterator D3 D3_oppCen D3_classes [(0, True), (1, False)] = Some (Inr D3_sheets)"
  by code_simp

lemma D3_AdjacencyMatrix: "AdjacencyMatrix D3_sheets = Some D3_mat"
  by code_simp

section \<open>SheetAdjacency\<close>

lemma SheetAdjacency_iff:
  "SheetAdjacency sheet0 sheet1 \<longleftrightarrow>
     (\<exists>elem0\<in>set (butlast sheet0). \<exists>elem1\<in>set (butlast sheet1).
        (elem0 = next_elem sheet1 elem1 \<and> next_elem sheet0 elem0 = elem1)
      \<or> (elem0 = elem1 \<and> next_elem sheet0 elem0 = next_elem sheet1 elem1))"
  unfolding SheetAdjacency_def list_ex_iff by simp

lemma SheetAdjacency_swap:
  assumes "SheetAdjacency sheet0 sheet1"
  shows "SheetAdjacency sheet1 sheet0"
proof -
  obtain elem0 elem1 where m: "elem0 \<in> set (butlast sheet0)" "elem1 \<in> set (butlast sheet1)"
    and d: "(elem0 = next_elem sheet1 elem1 \<and> next_elem sheet0 elem0 = elem1)
          \<or> (elem0 = elem1 \<and> next_elem sheet0 elem0 = next_elem sheet1 elem1)"
    using assms unfolding SheetAdjacency_iff by blast
  have "(elem1 = next_elem sheet0 elem0 \<and> next_elem sheet1 elem1 = elem0)
      \<or> (elem1 = elem0 \<and> next_elem sheet1 elem1 = next_elem sheet0 elem0)"
    using d by auto
  then show ?thesis unfolding SheetAdjacency_iff using m by (intro bexI[of _ elem1] bexI[of _ elem0])
qed

lemma SheetAdjacency_sym: "SheetAdjacency sheet0 sheet1 = SheetAdjacency sheet1 sheet0"
  using SheetAdjacency_swap by blast

lemma index_of_nth: "x \<in> set xs \<Longrightarrow> xs ! index_of xs x = x"
  unfolding index_of_def by (induction xs) auto

lemma index_of_le: "k < length xs \<Longrightarrow> xs ! k = x \<Longrightarrow> index_of xs x \<le> k"
  unfolding index_of_def
proof (induction xs arbitrary: k)
  case Nil
  then show ?case by simp
next
  case (Cons y ys)
  then show ?case by (cases k) auto
qed

text \<open>The read \<^verbatim>\<open>sheet[sheet.index(elem)+1]\<close> of \<^verbatim>\<open>SheetAdjacency\<close> is always in range.\<close>

lemma index_of_butlast:
  assumes "x \<in> set (butlast xs)"
  shows "index_of xs x + 1 < length xs \<and> xs ! index_of xs x = x"
proof -
  have "x \<in> set xs" using assms by (rule in_set_butlastD)
  then have a: "xs ! index_of xs x = x" by (rule index_of_nth)
  obtain k where k: "k < length (butlast xs)" "butlast xs ! k = x"
    using assms unfolding in_set_conv_nth by blast
  then have "xs ! k = x" "k < length xs" by (simp_all add: nth_butlast)
  then have "index_of xs x \<le> k" by (intro index_of_le)
  with k show ?thesis using a by simp
qed

lemma SheetAdjacency_self:
  assumes "2 \<le> length sheet"
  shows "SheetAdjacency sheet sheet"
proof -
  have "butlast sheet \<noteq> []" using assms by (cases sheet) (auto split: if_splits)
  then obtain x where "x \<in> set (butlast sheet)" by (cases "butlast sheet") auto
  then show ?thesis unfolding SheetAdjacency_iff by (intro bexI[of _ x]) simp_all
qed

section \<open>The adjacency matrix\<close>

lemma mat_set_nth:
  assumes "i < length mat" "j < length (mat ! i)"
  shows "mat_set mat i j v ! a ! b = (if a = i \<and> b = j then v else mat ! a ! b)"
  using assms unfolding mat_set_def by (cases "a = i"; cases "b = j") simp_all

lemma mat_set_square: "square n mat \<Longrightarrow> square n (mat_set mat i j v)"
  unfolding square_def mat_set_def by (cases "i < length mat") (auto simp: nth_list_update)

lemma mat_set2_nth:
  assumes "square n mat" "i < n" "j < n"
  shows "mat_set (mat_set mat i j 1) j i 1 ! a ! b =
           (if (a = i \<and> b = j) \<or> (a = j \<and> b = i) then 1 else mat ! a ! b)"
proof -
  have s: "square n (mat_set mat i j 1)" using assms(1) by (rule mat_set_square)
  have p1: "j < length (mat_set mat i j 1)"
    using s assms unfolding square_def by simp
  have p2: "i < length (mat_set mat i j 1 ! j)"
    using s assms unfolding square_def by simp
  have q1: "i < length mat" using assms unfolding square_def by simp
  have q2: "j < length (mat ! i)" using assms unfolding square_def by simp
  have A: "mat_set (mat_set mat i j 1) j i 1 ! a ! b =
             (if a = j \<and> b = i then 1 else mat_set mat i j 1 ! a ! b)"
    by (rule mat_set_nth[OF p1 p2])
  have B: "mat_set mat i j 1 ! a ! b = (if a = i \<and> b = j then 1 else mat ! a ! b)"
    by (rule mat_set_nth[OF q1 q2])
  show ?thesis
    apply (subst A)
    apply (subst B)
    apply (cases "a = i"; cases "b = j"; cases "a = j"; cases "b = i"; simp)
    done
qed

lemma recorded_step:
  assumes r: "recorded sheets mat" and i: "i < length sheets" and j: "j < length sheets"
    and adj: "SheetAdjacency (snd (sheets ! i)) (snd (sheets ! j))"
  shows "recorded sheets (mat_set (mat_set mat i j 1) j i 1)"
proof -
  have sq: "square (length sheets) mat" using r unfolding recorded_def by simp
  have adj': "SheetAdjacency (snd (sheets ! j)) (snd (sheets ! i))"
    using adj SheetAdjacency_sym by blast
  show ?thesis
    unfolding recorded_def
  proof (intro conjI allI impI)
    show "square (length sheets) (mat_set (mat_set mat i j 1) j i 1)"
      using sq by (intro mat_set_square)
  next
    fix a b assume "a < length sheets" "b < length sheets"
    then show "mat_set (mat_set mat i j 1) j i 1 ! a ! b = mat_set (mat_set mat i j 1) j i 1 ! b ! a"
      using r unfolding recorded_def by (simp add: mat_set2_nth[OF sq i j])
  next
    fix a b assume "a < length sheets" "b < length sheets"
    then show "mat_set (mat_set mat i j 1) j i 1 ! a ! b = 0
             \<or> mat_set (mat_set mat i j 1) j i 1 ! a ! b = 1"
      using r unfolding recorded_def by (simp add: mat_set2_nth[OF sq i j])
  next
    fix a b assume "a < length sheets" "b < length sheets"
      and "mat_set (mat_set mat i j 1) j i 1 ! a ! b = 1"
    then show "SheetAdjacency (snd (sheets ! a)) (snd (sheets ! b))"
      using r adj adj' unfolding recorded_def
      by (auto simp: mat_set2_nth[OF sq i j] split: if_splits)
  qed
qed

lemma scan_row_recorded:
  assumes "recorded sheets (fst st)" "i < length sheets" "\<forall>j\<in>set js. j < length sheets"
  shows "recorded sheets (fst (scan_row sheets i js st))"
  using assms
proof (induction js arbitrary: st)
  case Nil
  then show ?case by simp
next
  case (Cons j js)
  show ?case
  proof (cases "SheetAdjacency (snd (sheets ! i)) (snd (sheets ! j))")
    case True
    have "recorded sheets (mat_set (mat_set (fst st) i j 1) j i 1)"
      using Cons.prems True by (intro recorded_step) auto
    then show ?thesis
      using Cons.IH[of "(mat_set (mat_set (fst st) i j 1) j i 1, snd st + 1)"] Cons.prems True
      by simp
  next
    case False
    then show ?thesis using Cons by simp
  qed
qed

text \<open>An invariant of one pass is an invariant of the \<^verbatim>\<open>while\<close> loop, when the loop ends.\<close>

lemma find_adjacent_inv:
  assumes major: "find_adjacent sheets i st = Some mat'" and p: "P (fst st)"
    and step: "\<And>st. P (fst st) \<Longrightarrow> P (fst (scan_row sheets i [i..<length sheets] st))"
  shows "P mat'"
proof -
  have "sheets = sheets \<longrightarrow> i = i \<longrightarrow> P (fst st) \<longrightarrow> P mat'"
  proof (rule find_adjacent.raw_induct
      [where P = "\<lambda>s k st' m. s = sheets \<longrightarrow> k = i \<longrightarrow> P (fst st') \<longrightarrow> P m", OF _ major])
    fix rec :: "'a catalog \<Rightarrow> nat \<Rightarrow> matrix \<times> int \<Rightarrow> matrix option" and s k st' m
    assume IH: "\<And>s k st' m. rec s k st' = Some m \<Longrightarrow>
                  s = sheets \<longrightarrow> k = i \<longrightarrow> P (fst st') \<longrightarrow> P m"
      and eq: "(if snd st' < int (length (snd (s ! k))) + 1
                then rec s k (scan_row s k [k..<length s] st') else Some (fst st')) = Some m"
    show "s = sheets \<longrightarrow> k = i \<longrightarrow> P (fst st') \<longrightarrow> P m"
    proof (intro impI)
      assume e: "s = sheets" "k = i" and p': "P (fst st')"
      show "P m"
      proof (cases "snd st' < int (length (snd (s ! k))) + 1")
        case True
        then have "rec s k (scan_row s k [k..<length s] st') = Some m"
          using eq by simp
        from IH[OF this] show ?thesis using e step[OF p'] by simp
      next
        case False
        then show ?thesis using eq p' by simp
      qed
    qed
  qed
  then show ?thesis using p by simp
qed

lemma find_adjacent_recorded:
  assumes "find_adjacent sheets i st = Some mat'" "recorded sheets (fst st)" "i < length sheets"
  shows "recorded sheets mat'"
  using assms(1,2)
proof (rule find_adjacent_inv)
  fix st' :: "matrix \<times> int" assume "recorded sheets (fst st')"
  then show "recorded sheets (fst (scan_row sheets i [i..<length sheets] st'))"
    using assms(3) by (intro scan_row_recorded) auto
qed

lemma build_rows_recorded:
  assumes "build_rows sheets is mat = Some mat'" "recorded sheets mat"
    "\<forall>i\<in>set is. i < length sheets"
  shows "recorded sheets mat'"
  using assms
proof (induction "is" arbitrary: mat)
  case Nil
  then show ?case by simp
next
  case (Cons i rest)
  then obtain m where m: "find_adjacent sheets i (mat, sum_list (mat ! i)) = Some m"
    and r: "build_rows sheets rest m = Some mat'"
    by (auto split: option.splits)
  have "recorded sheets m" using find_adjacent_recorded[OF m] Cons.prems by simp
  then show ?case using Cons.IH[OF r] Cons.prems by simp
qed

lemma zero_matrix_recorded: "recorded sheets (zero_matrix (length sheets) (length sheets))"
  unfolding recorded_def square_def zero_matrix_def by simp

lemma AdjacencyMatrix_recorded:
  assumes "AdjacencyMatrix sheets = Some mat"
  shows "recorded sheets mat"
proof -
  have "build_rows sheets [0..<length sheets] (zero_matrix (length sheets) (length sheets))
          = Some mat"
    using assms unfolding AdjacencyMatrix_def .
  from build_rows_recorded[OF this zero_matrix_recorded] show ?thesis by simp
qed

text \<open>
  Claim C4.  The adjacency matrix that \<^verbatim>\<open>ComponentBuilder\<close> builds is symmetric: for all
  catalog indices \<open>i\<close> and \<open>j\<close> the entries \<open>mat[i][j]\<close> and \<open>mat[j][i]\<close> are equal, so
  sheet \<open>i\<close> is recorded adjacent to sheet \<open>j\<close> exactly when sheet \<open>j\<close> is recorded adjacent
  to sheet \<open>i\<close>.
\<close>

theorem adjacency_matrix_symmetric:
  assumes "AdjacencyMatrix sheets = Some mat" "i < length sheets" "j < length sheets"
  shows "mat ! i ! j = mat ! j ! i \<and> (mat ! i ! j = 1 \<longleftrightarrow> mat ! j ! i = 1)"
  using AdjacencyMatrix_recorded[OF assms(1)] assms(2,3) unfolding recorded_def by simp

theorem adjacency_matrix_symmetric_witness:
  "AdjacencyMatrix D3_sheets = Some D3_mat \<and> (0::nat) < length D3_sheets
     \<and> (1::nat) < length D3_sheets
     \<and> D3_mat ! 0 ! 1 = D3_mat ! 1 ! 0 \<and> (D3_mat ! 0 ! 1 = 1 \<longleftrightarrow> D3_mat ! 1 ! 0 = 1)"
proof -
  have l: "(0::nat) < length D3_sheets" "(1::nat) < length D3_sheets"
    by (simp_all add: D3_sheets_def)
  from adjacency_matrix_symmetric[OF D3_AdjacencyMatrix l] D3_AdjacencyMatrix l
  show ?thesis by blast
qed

section \<open>Deduplication of sheets\<close>

lemma D3_Sheetbuilder0: "Sheetbuilder D3 D3_oppCen D3_classes (0, True) = Some (Inr D3_dict0)"
  by code_simp

lemma Sheetbuilder_inner_distinct:
  assumes "Sheetbuilder_inner G elem0 rest accepted = Some res" "distinct (map set accepted)"
  shows "distinct (map set res)"
  using assms
proof (induction rest arbitrary: accepted)
  case Nil
  then show ?case by simp
next
  case (Cons elem1 rest)
  show ?case
  proof (cases "gmul G elem0 elem1 \<noteq> gmul G elem1 elem0")
    case False
    then show ?thesis using Cons by simp
  next
    case True
    then obtain sc where sc: "close_sheet G elem0 [elem1, gmul G (ginv G elem1) elem0] = Some sc"
      using Cons.prems(1) by (auto split: option.splits)
    show ?thesis
    proof (cases "list_ex (\<lambda>old. set sc = set old) accepted")
      case True
      then have "Sheetbuilder_inner G elem0 rest accepted = Some res"
        using Cons.prems(1) \<open>gmul G elem0 elem1 \<noteq> gmul G elem1 elem0\<close> sc by simp
      then show ?thesis using Cons.IH Cons.prems(2) by blast
    next
      case False
      then have r: "Sheetbuilder_inner G elem0 rest (accepted @ [sc]) = Some res"
        using Cons.prems(1) \<open>gmul G elem0 elem1 \<noteq> gmul G elem1 elem0\<close> sc by simp
      have "set sc \<notin> set (map set accepted)"
        using False unfolding list_ex_iff by auto
      then have "distinct (map set (accepted @ [sc]))" using Cons.prems(2) by simp
      then show ?thesis using Cons.IH[OF r] by blast
    qed
  qed
qed

lemma set_update_cases:
  "(k, v) \<in> set (AList.update k' v' al) \<Longrightarrow> (k, v) = (k', v') \<or> (k, v) \<in> set al"
  by (induction al) (auto split: if_splits)

lemma Sheetbuilder_outer_distinct:
  assumes "Sheetbuilder_outer G oppCen cls dic = Some res"
    "distinct (map fst dic)" "\<forall>(elem0, accepted)\<in>set dic. distinct (map set accepted)"
  shows "distinct (map fst res) \<and> (\<forall>(elem0, accepted)\<in>set res. distinct (map set accepted))"
  using assms
proof (induction cls arbitrary: dic)
  case Nil
  then show ?case by simp
next
  case (Cons elem0 cls)
  then obtain acc where acc: "Sheetbuilder_inner G elem0 oppCen [] = Some acc"
    and r: "Sheetbuilder_outer G oppCen cls (AList.update elem0 acc dic) = Some res"
    by (auto split: option.splits)
  have d: "distinct (map set acc)" using Sheetbuilder_inner_distinct[OF acc] by simp
  have 1: "distinct (map fst (AList.update elem0 acc dic))"
    using Cons.prems(2) by (rule distinct_update)
  have 2: "\<forall>(e, accepted)\<in>set (AList.update elem0 acc dic). distinct (map set accepted)"
    using Cons.prems(3) d set_update_cases[of _ _ elem0 acc dic] by fastforce
  show ?case using Cons.IH[OF r 1 2] .
qed

text \<open>
  Claim C7.  Deduplication in \<^verbatim>\<open>Sheetbuilder\<close> is by element set: in the dictionary it
  returns, the sheets kept for one anchor have pairwise different element sets, so two kept
  sheets of an anchor with equal element sets are the same entry.
\<close>

theorem Sheetbuilder_dedup:
  assumes "Sheetbuilder G oppCen conjugacyClasses conclassrep = Some (Inr dic)"
    and "(elem0, accepted) \<in> set dic" and "i < length accepted" and "j < length accepted"
    and "set (accepted ! i) = set (accepted ! j)"
  shows "i = j"
proof -
  obtain cls where "Sheetbuilder_outer G oppCen cls [] = Some dic"
    using assms(1) unfolding Sheetbuilder_def by (auto split: option.splits)
  then have "\<forall>(elem0, accepted)\<in>set dic. distinct (map set accepted)"
    using Sheetbuilder_outer_distinct[of G oppCen cls "[]" dic] by simp
  then have "distinct (map set accepted)" using assms(2) by auto
  then show ?thesis using assms(3,4,5)
    by (metis distinct_conv_nth length_map nth_map)
qed


theorem Sheetbuilder_dedup_witness:
  "Sheetbuilder D3 D3_oppCen D3_classes (0, True) = Some (Inr D3_dict0)
   \<and> ((1, True), [[(1, False), (0, True), (2, False), (2, True), (1, False)]]) \<in> set D3_dict0
   \<and> (0::nat) < length [[(1, False), (0, True), (2, False), (2, True), (1::nat, False)]]
   \<and> (0::nat) = 0"
proof -
  have m: "((1, True), [[(1, False), (0, True), (2, False), (2, True), (1, False)]]) \<in> set D3_dict0"
    by (simp add: D3_dict0_def)
  have l: "(0::nat) < length [[(1, False), (0, True), (2, False), (2, True), (1::nat, False)]]"
    by simp
  have "(0::nat) = 0"
    by (rule Sheetbuilder_dedup[OF D3_Sheetbuilder0 m l l]) simp
  with D3_Sheetbuilder0 m l show ?thesis by blast
qed

section \<open>ConClasses\<close>

lemma ConClasses_inner_result:
  assumes "dom (map_of dic) = set reps"
  shows "(ConClasses_inner G reps c xs dic = Inr dic \<and> \<not> (\<exists>elem\<in>set xs. conj_by G elem c \<in> set reps))
       \<or> (\<exists>elem\<in>set xs. \<exists>cls. conj_by G elem c \<in> set reps
             \<and> map_of dic (conj_by G elem c) = Some cls
             \<and> ConClasses_inner G reps c xs dic
                 = Inr (AList.update (conj_by G elem c) (cls @ [c]) dic))"
proof (induction xs)
  case Nil
  then show ?case by simp
next
  case (Cons elem xs)
  show ?case
  proof (cases "conj_by G elem c \<in> set reps")
    case True
    then obtain cls where "map_of dic (conj_by G elem c) = Some cls"
      using assms by blast
    then show ?thesis using True by auto
  next
    case False
    then show ?thesis using Cons by auto
  qed
qed

lemma classes_inv_class:
  assumes "classes_inv G oppCen reps seen dic" "map_of dic r = Some cls"
  shows "\<exists>rest. cls = r # rest \<and> distinct rest \<and> set rest \<subseteq> seen \<and>
           (\<forall>x\<in>set rest. \<exists>elem\<in>set oppCen. conj_by G elem x = r)"
proof -
  have "\<forall>r cls. map_of dic r = Some cls \<longrightarrow>
        (\<exists>rest. cls = r # rest \<and> distinct rest \<and> set rest \<subseteq> seen \<and>
           (\<forall>x\<in>set rest. \<exists>elem\<in>set oppCen. conj_by G elem x = r))"
    using assms(1) unfolding classes_inv_def by (elim conjE) assumption
  then show ?thesis using assms(2) by (elim allE impE) assumption+
qed

lemma classes_inv_member:
  assumes "classes_inv G oppCen reps seen dic" "c \<in> seen" "matched G oppCen reps c"
  shows "\<exists>r cls. map_of dic r = Some cls \<and> c \<in> set cls"
proof -
  have "\<forall>c\<in>seen. matched G oppCen reps c \<longrightarrow>
        (\<exists>r cls. map_of dic r = Some cls \<and> c \<in> set cls)"
    using assms(1) unfolding classes_inv_def by (elim conjE) assumption
  then show ?thesis using assms(2,3) by blast
qed

lemma classes_inv_keys:
  assumes "classes_inv G oppCen reps seen dic"
  shows "distinct (map fst dic)" "dom (map_of dic) = set reps"
  using assms unfolding classes_inv_def by simp_all

lemma classes_invI:
  assumes "distinct (map fst dic)" "dom (map_of dic) = set reps"
    and "\<And>r cls. map_of dic r = Some cls \<Longrightarrow>
        \<exists>rest. cls = r # rest \<and> distinct rest \<and> set rest \<subseteq> seen \<and>
           (\<forall>x\<in>set rest. \<exists>elem\<in>set oppCen. conj_by G elem x = r)"
    and "\<And>c. c \<in> seen \<Longrightarrow> matched G oppCen reps c \<Longrightarrow>
        \<exists>r cls. map_of dic r = Some cls \<and> c \<in> set cls"
  shows "classes_inv G oppCen reps seen dic"
  unfolding classes_inv_def
proof (intro conjI allI impI ballI)
  show "distinct (map fst dic)" by (rule assms(1))
  show "dom (map_of dic) = set reps" by (rule assms(2))
next
  fix r cls assume "map_of dic r = Some cls"
  then show "\<exists>rest. cls = r # rest \<and> distinct rest \<and> set rest \<subseteq> seen \<and>
           (\<forall>x\<in>set rest. \<exists>elem\<in>set oppCen. conj_by G elem x = r)" by (rule assms(3))
next
  fix c assume "c \<in> seen" "matched G oppCen reps c"
  then show "\<exists>r cls. map_of dic r = Some cls \<and> c \<in> set cls" by (rule assms(4))
qed

lemma classes_inv_skip:
  assumes inv: "classes_inv G oppCen reps seen dic" and n: "\<not> matched G oppCen reps c"
  shows "classes_inv G oppCen reps (insert c seen) dic"
proof (rule classes_invI)
  show "distinct (map fst dic)" "dom (map_of dic) = set reps"
    using classes_inv_keys[OF inv] by simp_all
next
  fix r cls assume "map_of dic r = Some cls"
  from classes_inv_class[OF inv this] obtain rest where "cls = r # rest" "distinct rest"
    "set rest \<subseteq> seen" "\<forall>x\<in>set rest. \<exists>elem\<in>set oppCen. conj_by G elem x = r"
    by blast
  then have "cls = r # rest \<and> distinct rest \<and> set rest \<subseteq> insert c seen \<and>
           (\<forall>x\<in>set rest. \<exists>elem\<in>set oppCen. conj_by G elem x = r)" by blast
  then show "\<exists>rest. cls = r # rest \<and> distinct rest \<and> set rest \<subseteq> insert c seen \<and>
           (\<forall>x\<in>set rest. \<exists>elem\<in>set oppCen. conj_by G elem x = r)" ..
next
  fix x assume "x \<in> insert c seen" "matched G oppCen reps x"
  then have "x \<in> seen" using n by auto
  then show "\<exists>r cls. map_of dic r = Some cls \<and> x \<in> set cls"
    using classes_inv_member[OF inv] \<open>matched G oppCen reps x\<close> by blast
qed

lemma classes_inv_append:
  assumes inv: "classes_inv G oppCen reps seen dic" and c: "c \<notin> seen"
    and e: "elem \<in> set oppCen" and k: "map_of dic (conj_by G elem c) = Some cls"
  shows "classes_inv G oppCen reps (insert c seen)
           (AList.update (conj_by G elem c) (cls @ [c]) dic)"
proof -
  define k where "k = conj_by G elem c"
  define d where "d = AList.update k (cls @ [c]) dic"
  have k': "map_of dic k = Some cls" using k unfolding k_def .
  have m: "map_of d = (map_of dic)(k \<mapsto> cls @ [c])" unfolding d_def by (rule update_conv')
  have kd: "map_of d k = Some (cls @ [c])" unfolding m by simp
  have od: "map_of d r = map_of dic r" if "r \<noteq> k" for r using that unfolding m by simp
  from classes_inv_class[OF inv k'] obtain rest where rest: "cls = k # rest" "distinct rest"
    "set rest \<subseteq> seen" "\<forall>x\<in>set rest. \<exists>elem\<in>set oppCen. conj_by G elem x = k"
    by blast
  have "classes_inv G oppCen reps (insert c seen) d"
  proof (rule classes_invI)
    show "distinct (map fst d)"
      using classes_inv_keys(1)[OF inv] unfolding d_def by (rule distinct_update)
    have "k \<in> dom (map_of dic)" using k' by blast
    then show "dom (map_of d) = set reps"
      using classes_inv_keys(2)[OF inv] unfolding m by auto
  next
    fix r v assume rv: "map_of d r = Some v"
    show "\<exists>rest'. v = r # rest' \<and> distinct rest' \<and> set rest' \<subseteq> insert c seen \<and>
              (\<forall>x\<in>set rest'. \<exists>elem\<in>set oppCen. conj_by G elem x = r)"
    proof (cases "r = k")
      case True
      then have v: "v = r # (rest @ [c])" using rv rest(1) kd by simp
      have "distinct (rest @ [c])" using rest(2,3) c by auto
      moreover have "set (rest @ [c]) \<subseteq> insert c seen" using rest(3) by auto
      moreover have "\<forall>x\<in>set (rest @ [c]). \<exists>elem\<in>set oppCen. conj_by G elem x = r"
        using rest(4) e True unfolding k_def by auto
      ultimately have "v = r # (rest @ [c]) \<and> distinct (rest @ [c])
          \<and> set (rest @ [c]) \<subseteq> insert c seen
          \<and> (\<forall>x\<in>set (rest @ [c]). \<exists>elem\<in>set oppCen. conj_by G elem x = r)"
        using v by blast
      then show ?thesis ..
    next
      case False
      then have "map_of dic r = Some v" using rv od by simp
      from classes_inv_class[OF inv this] obtain rest' where "v = r # rest'" "distinct rest'"
        "set rest' \<subseteq> seen" "\<forall>x\<in>set rest'. \<exists>elem\<in>set oppCen. conj_by G elem x = r"
        by blast
      then have "v = r # rest' \<and> distinct rest' \<and> set rest' \<subseteq> insert c seen \<and>
              (\<forall>x\<in>set rest'. \<exists>elem\<in>set oppCen. conj_by G elem x = r)" by blast
      then show ?thesis ..
    qed
  next
    fix x assume x: "x \<in> insert c seen" and mx: "matched G oppCen reps x"
    show "\<exists>r v. map_of d r = Some v \<and> x \<in> set v"
    proof (cases "x = c")
      case True
      have "x \<in> set (cls @ [c])" using True by simp
      with kd show ?thesis by blast
    next
      case False
      then have "x \<in> seen" using x by simp
      from classes_inv_member[OF inv this mx] obtain r v where
        rv: "map_of dic r = Some v" "x \<in> set v" by blast
      show ?thesis
      proof (cases "r = k")
        case True
        then have "v = cls" using rv(1) k' by simp
        then have "x \<in> set (cls @ [c])" using rv(2) by simp
        with kd show ?thesis by blast
      next
        case False
        then have "map_of d r = Some v" using rv(1) od by simp
        with rv(2) show ?thesis by blast
      qed
    qed
  qed
  then show ?thesis unfolding d_def k_def .
qed

lemma ConClasses_inner_inv:
  assumes inv: "classes_inv G oppCen reps seen dic" and c: "c \<notin> seen"
  shows "\<exists>dic'. ConClasses_inner G reps c oppCen dic = Inr dic'
           \<and> classes_inv G oppCen reps (insert c seen) dic'"
proof -
  have d: "dom (map_of dic) = set reps" using inv unfolding classes_inv_def by simp
  from ConClasses_inner_result[OF d, of G c oppCen]
  show ?thesis
  proof
    assume a: "ConClasses_inner G reps c oppCen dic = Inr dic
                 \<and> \<not> (\<exists>elem\<in>set oppCen. conj_by G elem c \<in> set reps)"
    then have "\<not> matched G oppCen reps c" unfolding matched_def list_ex_iff by simp
    from classes_inv_skip[OF inv this] a show ?thesis by simp
  next
    assume "\<exists>elem\<in>set oppCen. \<exists>cls. conj_by G elem c \<in> set reps
             \<and> map_of dic (conj_by G elem c) = Some cls
             \<and> ConClasses_inner G reps c oppCen dic
                 = Inr (AList.update (conj_by G elem c) (cls @ [c]) dic)"
    then obtain elem cls where e: "elem \<in> set oppCen"
      and k: "map_of dic (conj_by G elem c) = Some cls"
      and r: "ConClasses_inner G reps c oppCen dic
                 = Inr (AList.update (conj_by G elem c) (cls @ [c]) dic)"
      by blast
    from classes_inv_append[OF inv c e k] r show ?thesis by simp
  qed
qed

lemma ConClasses_outer_inv:
  assumes "classes_inv G oppCen reps seen dic" "distinct cands" "set cands \<inter> seen = {}"
  shows "\<exists>dic'. ConClasses_outer G oppCen reps cands dic = Inr dic'
           \<and> classes_inv G oppCen reps (seen \<union> set cands) dic'"
  using assms
proof (induction cands arbitrary: seen dic)
  case Nil
  then show ?case by simp
next
  case (Cons c cands)
  have c: "c \<notin> seen" using Cons.prems(3) by simp
  obtain dic1 where d1: "ConClasses_inner G reps c oppCen dic = Inr dic1"
    and i1: "classes_inv G oppCen reps (insert c seen) dic1"
    using ConClasses_inner_inv[OF Cons.prems(1) c] by blast
  have "distinct cands" "set cands \<inter> insert c seen = {}" using Cons.prems(2,3) by auto
  from Cons.IH[OF i1 this] obtain dic' where
    "ConClasses_outer G oppCen reps cands dic1 = Inr dic'"
    "classes_inv G oppCen reps (insert c seen \<union> set cands) dic'" by blast
  then show ?case using d1 by simp
qed

lemma init_classes_map_of:
  "map_of (fold (\<lambda>elem dic. AList.update elem [elem] dic) reps dic) r
     = (if r \<in> set reps then Some [r] else map_of dic r)"
proof (induction reps arbitrary: dic)
  case Nil
  then show ?case by simp
next
  case (Cons a reps)
  show ?case by (simp add: Cons.IH update_conv')
qed

lemma init_classes_distinct:
  "distinct (map fst dic) \<Longrightarrow>
     distinct (map fst (fold (\<lambda>elem dic. AList.update elem [elem] dic) reps dic))"
  by (induction reps arbitrary: dic) (simp_all add: distinct_update)

lemma init_classes_inv:
  "classes_inv G oppCen reps {} (fold (\<lambda>elem dic. AList.update elem [elem] dic) reps [])"
proof (rule classes_invI)
  let ?d = "fold (\<lambda>elem dic. AList.update elem [elem] dic) reps []"
  have m: "map_of ?d r = (if r \<in> set reps then Some [r] else None)" for r
    using init_classes_map_of[of reps "[]" r] by simp
  show "distinct (map fst ?d)" by (rule init_classes_distinct) simp
  show "dom (map_of ?d) = set reps" unfolding dom_def m by auto
  fix r cls assume "map_of ?d r = Some cls"
  then have "cls = [r]" unfolding m by (simp split: if_splits)
  then show "\<exists>rest. cls = r # rest \<and> distinct rest \<and> set rest \<subseteq> {} \<and>
           (\<forall>x\<in>set rest. \<exists>elem\<in>set oppCen. conj_by G elem x = r)" by simp
next
  fix c :: 'a assume "c \<in> {}"
  then show "\<exists>r cls. map_of (fold (\<lambda>elem dic. AList.update elem [elem] dic) reps []) r = Some cls
               \<and> c \<in> set cls" by simp
qed

lemma ConClasses_inv:
  assumes "distinct cands"
  shows "\<exists>dic. ConClasses G oppCen reps cands = Inr dic
           \<and> classes_inv G oppCen reps (set cands) dic"
  using ConClasses_outer_inv[OF init_classes_inv assms, of G oppCen reps] unfolding ConClasses_def
  by simp


lemma D3_norot_Reps: "Reps D3_norot D3_oppCen = [(0, True)]"
  by code_simp

lemma D3_norot_ConClasses:
  "ConClasses D3_norot D3_oppCen [(0, True)] [(1, False), (2, False), (1, True), (2, True)]
     = Inr [((0, True), [(0, True), (1, True), (2, True)])]"
  by code_simp

lemma D3_norot_unmatched: "\<not> matched D3_norot D3_oppCen [(0, True)] (1, False)"
  by code_simp

text \<open>
  Claim C8, as the code has it.  \<^verbatim>\<open>ConClasses\<close> has no failure path: when a candidate matches
  no representative under conjugation by any element of \<open>oppCen\<close>, the inner loop runs out,
  nothing is raised, and the dictionary is returned with the candidate in no class.
\<close>

theorem ConClasses_silent_drop:
  assumes "distinct cands" "c \<notin> set reps" "\<not> matched G oppCen reps c"
  shows "\<exists>dic. ConClasses G oppCen reps cands = Inr dic \<and> (\<forall>(r, cls)\<in>set dic. c \<notin> set cls)"
proof -
  obtain dic where d: "ConClasses G oppCen reps cands = Inr dic"
    and inv: "classes_inv G oppCen reps (set cands) dic"
    using ConClasses_inv[OF assms(1)] by blast
  have "c \<notin> set cls" if "(r, cls) \<in> set dic" for r cls
  proof -
    have m: "map_of dic r = Some cls"
      using that classes_inv_keys(1)[OF inv] by simp
    then have r: "r \<in> set reps" using classes_inv_keys(2)[OF inv] by blast
    from classes_inv_class[OF inv m] obtain rest where rest: "cls = r # rest"
      "\<forall>x\<in>set rest. \<exists>elem\<in>set oppCen. conj_by G elem x = r" by blast
    have "c \<noteq> r" using r assms(2) by blast
    moreover have "c \<notin> set rest"
    proof
      assume "c \<in> set rest"
      then obtain elem where "elem \<in> set oppCen" "conj_by G elem c = r" using rest(2) by blast
      then have "matched G oppCen reps c" unfolding matched_def list_ex_iff using r by blast
      then show False using assms(3) by simp
    qed
    ultimately show ?thesis using rest(1) by simp
  qed
  then show ?thesis using d by blast
qed

theorem ConClasses_silent_drop_witness:
  "distinct [(1, False), (2, False), (1, True), (2::nat, True)]
   \<and> (1, False) \<notin> set [(0::nat, True)]
   \<and> \<not> matched D3_norot D3_oppCen [(0, True)] (1, False)
   \<and> (\<exists>dic. ConClasses D3_norot D3_oppCen [(0, True)] [(1, False), (2, False), (1, True), (2, True)]
               = Inr dic \<and> (\<forall>(r, cls)\<in>set dic. (1, False) \<notin> set cls))"
proof -
  have a: "distinct [(1, False), (2, False), (1, True), (2::nat, True)]" by simp
  have b: "(1, False) \<notin> set [(0::nat, True)]" by simp
  from ConClasses_silent_drop[OF a b D3_norot_unmatched] a b D3_norot_unmatched
  show ?thesis by blast
qed

text \<open>
  The claim as the specification states it (an unmatched candidate is surfaced as an explicit
  failure) fails on the adapter \<open>D3_norot\<close>, whose list of representatives lacks the class of
  the rotations: the rotation \<open>(1, False)\<close> is a non-central candidate that matches no
  representative, and \<^verbatim>\<open>ConClasses\<close> returns a dictionary without it.
\<close>

theorem ConClasses_no_failure_counterexample:
  "(1, False) \<in> set D3_oppCen
   \<and> (1, False) \<in> set [(1, False), (2, False), (1, True), (2::nat, True)]
   \<and> \<not> matched D3_norot D3_oppCen (Reps D3_norot D3_oppCen) (1, False)
   \<and> ConClasses D3_norot D3_oppCen (Reps D3_norot D3_oppCen)
         [(1, False), (2, False), (1, True), (2, True)]
       = Inr [((0, True), [(0, True), (1, True), (2, True)])]"
  unfolding D3_norot_Reps using D3_norot_ConClasses D3_norot_unmatched
  by (simp add: D3_oppCen_def)

end
